theory Spec2Isabelle
  imports Complex_Main "HOL-Library.AList" "HOL-Library.Sublist"
begin

section \<open>Strings and regular expressions of the host language\<close>

text \<open>
  The pipeline in \<^verbatim>\<open>lib/textProcessing.js\<close> is written against JavaScript strings and
  regular expressions. A string is modelled as a \<^typ>\<open>string\<close>, that is a list of code
  units below 256 (Latin-1); the inputs the theorems evaluate are ASCII. The regular
  expressions are modelled by a backtracking matcher that returns, for a pattern and a
  position, every way the pattern can match there, in the order in which the
  backtracking of the language would try them. The first element of that list is the
  match the language reports.
\<close>

text \<open>The classes \<^verbatim>\<open>\d\<close>, \<^verbatim>\<open>\w\<close>, \<^verbatim>\<open>\s\<close>, \<^verbatim>\<open>[A-Z]\<close> and \<^verbatim>\<open>[ \t]\<close>, and the line terminators.\<close>

definition is_digit :: "char \<Rightarrow> bool" where
  "is_digit c = (c \<in> set ''0123456789'')"

definition is_upper :: "char \<Rightarrow> bool" where
  "is_upper c = (c \<in> set ''ABCDEFGHIJKLMNOPQRSTUVWXYZ'')"

definition is_lower :: "char \<Rightarrow> bool" where
  "is_lower c = (c \<in> set ''abcdefghijklmnopqrstuvwxyz'')"

definition is_word :: "char \<Rightarrow> bool" where
  "is_word c = (is_lower c \<or> is_upper c \<or> is_digit c \<or> c = CHR ''_'')"

definition is_space :: "char \<Rightarrow> bool" where
  "is_space c = (c \<in> set [CHR 0x09, CHR 0x0A, CHR 0x0B, CHR 0x0C, CHR 0x0D, CHR 0x20, CHR 0xA0])"

definition is_blank :: "char \<Rightarrow> bool" where
  "is_blank c = (c = CHR 0x20 \<or> c = CHR 0x09)"

definition is_line_terminator :: "char \<Rightarrow> bool" where
  "is_line_terminator c = (c = CHR 0x0A \<or> c = CHR 0x0D)"

datatype cclass = Digit | Word | Space | Upper | Blank

fun in_class :: "cclass \<Rightarrow> char \<Rightarrow> bool" where
  "in_class Digit c = is_digit c"
| "in_class Word c = is_word c"
| "in_class Space c = is_space c"
| "in_class Upper c = is_upper c"
| "in_class Blank c = is_blank c"

text \<open>
  Case folding of the \<^verbatim>\<open>i\<close> flag. Every literal of an \<^verbatim>\<open>i\<close>-flagged pattern of this
  program is an ASCII letter or a space, and no code unit outside ASCII folds to an ASCII
  letter, so folding the ASCII lower-case letters is all that such a pattern can observe.
\<close>

fun upcase_of :: "string \<Rightarrow> string \<Rightarrow> char \<Rightarrow> char" where
  "upcase_of (l # ls) (u # us) c = (if c = l then u else upcase_of ls us c)"
| "upcase_of _ _ c = c"

definition canonicalize :: "char \<Rightarrow> char" where
  "canonicalize c = upcase_of ''abcdefghijklmnopqrstuvwxyz'' ''ABCDEFGHIJKLMNOPQRSTUVWXYZ'' c"

record flags =
  ignoreCase :: bool
  multiline :: bool
  dotAll :: bool

datatype regex =
    Chr char
  | Dot
  | Cls cclass
  | Seq regex regex
  | Alt regex regex
  | Eps
  | Quant nat "nat option" bool regex
  | Lookahead regex
  | WordB
  | Caret
  | Dollar

text \<open>
  A matcher state is the code unit before the current position (if any) and the input
  from the current position on. \<^verbatim>\<open>\b\<close>, \<^verbatim>\<open>^\<close> and \<^verbatim>\<open>$\<close> read nothing else.
\<close>

type_synonym mstate = "char option \<times> string"

definition word_before :: "mstate \<Rightarrow> bool" where
  "word_before st = (case fst st of None \<Rightarrow> False | Some c \<Rightarrow> is_word c)"

definition word_after :: "mstate \<Rightarrow> bool" where
  "word_after st = (case snd st of [] \<Rightarrow> False | c # _ \<Rightarrow> is_word c)"

definition step_if :: "(char \<Rightarrow> bool) \<Rightarrow> mstate \<Rightarrow> mstate list" where
  "step_if p st = (case snd st of [] \<Rightarrow> [] | c # cs \<Rightarrow> if p c then [(Some c, cs)] else [])"

text \<open>
  The quantifier \<^verbatim>\<open>{lo,hi}\<close> (greedy or lazy) over a matcher \<open>f\<close> of its body. As in the
  language, once the lower bound is met an iteration that consumes nothing is given up.
  An iteration is followed only if it leaves a shorter input or a smaller lower bound,
  which every matcher of this theory does.
\<close>

function rep :: "(mstate \<Rightarrow> mstate list) \<Rightarrow> nat \<Rightarrow> nat option \<Rightarrow> bool \<Rightarrow> mstate \<Rightarrow> mstate list" where
  "rep f lo hi greedy st =
     (if hi = Some 0 then [st]
      else
        let more = concat (map (\<lambda>st'.
                     if length (snd st') < length (snd st) \<or> (0 < lo \<and> length (snd st') = length (snd st))
                     then rep f (lo - 1) (map_option (\<lambda>h. h - 1) hi) greedy st'
                     else []) (f st))
        in if 0 < lo then more else if greedy then more @ [st] else st # more)"
  by pat_completeness auto
termination
  by (relation "measure (\<lambda>(f, lo, hi, greedy, st). lo + length (snd st))") auto

fun rmatch :: "flags \<Rightarrow> regex \<Rightarrow> mstate \<Rightarrow> mstate list" where
  "rmatch fl (Chr c) st =
     step_if (\<lambda>x. if ignoreCase fl then canonicalize x = canonicalize c else x = c) st"
| "rmatch fl Dot st = step_if (\<lambda>x. if dotAll fl then True else \<not> is_line_terminator x) st"
| "rmatch fl (Cls k) st = step_if (in_class k) st"
| "rmatch fl (Seq r1 r2) st = concat (map (\<lambda>st'. rmatch fl r2 st') (rmatch fl r1 st))"
| "rmatch fl (Alt r1 r2) st = rmatch fl r1 st @ rmatch fl r2 st"
| "rmatch fl Eps st = [st]"
| "rmatch fl (Quant lo hi greedy r) st = rep (\<lambda>st'. rmatch fl r st') lo hi greedy st"
| "rmatch fl (Lookahead r) st = (if rmatch fl r st = [] then [] else [st])"
| "rmatch fl WordB st = (if word_before st \<noteq> word_after st then [st] else [])"
| "rmatch fl Caret st =
     (case fst st of None \<Rightarrow> [st]
      | Some c \<Rightarrow> if multiline fl \<and> is_line_terminator c then [st] else [])"
| "rmatch fl Dollar st =
     (case snd st of [] \<Rightarrow> [st]
      | c # _ \<Rightarrow> if multiline fl \<and> is_line_terminator c then [st] else [])"

text \<open>Pattern syntax: a literal string, \<^verbatim>\<open>*\<close>, \<^verbatim>\<open>+\<close>, \<^verbatim>\<open>?\<close>, \<^verbatim>\<open>*?\<close>, sequences and alternatives.\<close>

definition Lit :: "string \<Rightarrow> regex" where
  "Lit s = foldr (\<lambda>c r. Seq (Chr c) r) s Eps"

definition Star :: "regex \<Rightarrow> regex" where "Star r = Quant 0 None True r"
definition Plus :: "regex \<Rightarrow> regex" where "Plus r = Quant 1 None True r"
definition Opt :: "regex \<Rightarrow> regex" where "Opt r = Quant 0 (Some 1) True r"
definition LazyStar :: "regex \<Rightarrow> regex" where "LazyStar r = Quant 0 None False r"

definition Seqs :: "regex list \<Rightarrow> regex" where
  "Seqs rs = foldr Seq rs Eps"

fun Alts :: "regex list \<Rightarrow> regex" where
  "Alts [] = Eps"
| "Alts [r] = r"
| "Alts (r # rs) = Alt r (Alts rs)"

text \<open>
  \<^verbatim>\<open>String.prototype.replace\<close> with a \<^verbatim>\<open>g\<close>-flagged pattern and a replacement function:
  scan from the left, replace the first match at the earliest position, go on behind it;
  after an empty match the next code unit is copied and the scan goes on behind it.
\<close>

function replace_from :: "flags \<Rightarrow> regex \<Rightarrow> (string \<Rightarrow> string) \<Rightarrow> mstate \<Rightarrow> string" where
  "replace_from fl r f st =
     (case rmatch fl r st of
        [] \<Rightarrow> (case snd st of [] \<Rightarrow> [] | c # cs \<Rightarrow> c # replace_from fl r f (Some c, cs))
      | st' # _ \<Rightarrow>
          if length (snd st') < length (snd st)
          then f (take (length (snd st) - length (snd st')) (snd st)) @ replace_from fl r f st'
          else f [] @ (case snd st of [] \<Rightarrow> [] | c # cs \<Rightarrow> c # replace_from fl r f (Some c, cs)))"
  by pat_completeness auto
termination
  by (relation "measure (\<lambda>(fl, r, f, st). length (snd st))") auto

definition replace_all :: "flags \<Rightarrow> regex \<Rightarrow> (string \<Rightarrow> string) \<Rightarrow> string \<Rightarrow> string" where
  "replace_all fl r f s = replace_from fl r f (None, s)"

definition remove_all :: "flags \<Rightarrow> regex \<Rightarrow> string \<Rightarrow> string" where
  "remove_all fl r s = replace_all fl r (\<lambda>_. []) s"

text \<open>\<^verbatim>\<open>String.prototype.trim\<close>, \<^verbatim>\<open>Array.prototype.join\<close>.\<close>

definition trim :: "string \<Rightarrow> string" where
  "trim s = rev (dropWhile is_space (rev (dropWhile is_space s)))"

fun join :: "string \<Rightarrow> string list \<Rightarrow> string" where
  "join sep [] = []"
| "join sep [x] = x"
| "join sep (x # xs) = x @ sep @ join sep xs"

section \<open>Text sanitizer\<close>

text \<open>
  \<^verbatim>\<open>cleanExtractedText\<close>: a chain of \<^verbatim>\<open>replace\<close> calls, then \<^verbatim>\<open>trim\<close>. Every pattern
  below is the pattern of the source at the same place in the chain, with its flags.
\<close>

definition fl_g :: flags where
  "fl_g = \<lparr>ignoreCase = False, multiline = False, dotAll = False\<rparr>"

definition fl_gs :: flags where
  "fl_gs = \<lparr>ignoreCase = False, multiline = False, dotAll = True\<rparr>"

definition fl_gm :: flags where
  "fl_gm = \<lparr>ignoreCase = False, multiline = True, dotAll = False\<rparr>"

definition fl_gi :: flags where
  "fl_gi = \<lparr>ignoreCase = True, multiline = False, dotAll = False\<rparr>"

definition NL :: char where
  "NL = CHR 0x0A"

text \<open>The tail \<^verbatim>\<open>.*?(?=\n\n|\n[A-Z]|$)\<close> that many of the patterns share.\<close>

definition until_break :: regex where
  "until_break =
     Seq (LazyStar Dot) (Lookahead (Alts [Lit [NL, NL], Seq (Chr NL) (Cls Upper), Dollar]))"

definition digits :: regex where "digits = Plus (Cls Digit)"
definition spaces :: regex where "spaces = Plus (Cls Space)"
definition spaces0 :: regex where "spaces0 = Star (Cls Space)"

text \<open>\<^verbatim>\<open>/src\/lib\/api\.js.*?processCaptureAPI/gs\<close>\<close>
definition re_api_js :: regex where
  "re_api_js = Seqs [Lit ''src/lib/api.js'', LazyStar Dot, Lit ''processCaptureAPI'']"

text \<open>\<^verbatim>\<open>/src\/.*?\.(js|tsx?)\s*\(\d+:\d+\)/g\<close>\<close>
definition re_src_ref :: regex where
  "re_src_ref =
     Seqs [Lit ''src/'', LazyStar Dot, Chr CHR ''.'',
           Alt (Lit ''js'') (Seq (Lit ''ts'') (Opt (Chr CHR ''x''))),
           spaces0, Chr CHR ''('', digits, Chr CHR '':'', digits, Chr CHR '')'']"

text \<open>\<^verbatim>\<open>/Call Stack.*?(?=\n\n|\n[A-Z]|$)/gs\<close> and the patterns of the same shape.\<close>
definition re_line_from :: "string \<Rightarrow> regex" where
  "re_line_from w = Seq (Lit w) until_break"

text \<open>\<^verbatim>\<open>/if \(response\.ok\)\s*\{.*?\}/gs\<close>\<close>
definition re_response_ok :: regex where
  "re_response_ok =
     Seqs [Lit ''if (response.ok)'', spaces0, Chr CHR ''{'', LazyStar Dot, Chr CHR ''}'']"

text \<open>\<^verbatim>\<open>/console\.(log|error|warn|info).*?(?=\n\n|\n[A-Z]|$)/gs\<close>\<close>
definition re_console :: regex where
  "re_console =
     Seqs [Lit ''console.'', Alts [Lit ''log'', Lit ''error'', Lit ''warn'', Lit ''info''],
           until_break]"

text \<open>\<^verbatim>\<open>/at \w+.*?(?=\n\n|\n[A-Z]|$)/gs\<close>\<close>
definition re_at_frame :: regex where
  "re_at_frame = Seqs [Lit ''at '', Plus (Cls Word), until_break]"

text \<open>\<^verbatim>\<open>/\d+\s+\d+\s+return\s+date:/g\<close>\<close>
definition re_pair_return_date :: regex where
  "re_pair_return_date =
     Seqs [digits, spaces, digits, spaces, Lit ''return'', spaces, Lit ''date:'']"

text \<open>\<^verbatim>\<open>/\d+\s+\d+\s+return/g\<close>\<close>
definition re_pair_return :: regex where
  "re_pair_return = Seqs [digits, spaces, digits, spaces, Lit ''return'']"

text \<open>\<^verbatim>\<open>/\d+\s+\d+\s+/g\<close>\<close>
definition re_pair :: regex where
  "re_pair = Seqs [digits, spaces, digits, spaces]"

text \<open>\<^verbatim>\<open>/return\s+date:.*?(?=\n\n|\n[A-Z]|$)/gs\<close>\<close>
definition re_return_date :: regex where
  "re_return_date = Seqs [Lit ''return'', spaces, Lit ''date:'', until_break]"

text \<open>\<^verbatim>\<open>/\d+\s*\/\s*\d+\s*\/\s*\d+/g\<close>\<close>
definition re_slash_triple :: regex where
  "re_slash_triple =
     Seqs [digits, spaces0, Chr CHR ''/'', spaces0, digits, spaces0, Chr CHR ''/'', spaces0,
           digits]"

text \<open>\<^verbatim>\<open>/\b\d{1,3}\s+\d{1,3}\b/g\<close>\<close>
definition re_short_pair :: regex where
  "re_short_pair =
     Seqs [WordB, Quant 1 (Some 3) True (Cls Digit), spaces,
           Quant 1 (Some 3) True (Cls Digit), WordB]"

text \<open>\<^verbatim>\<open>/\b(return|const|let|var|function|async|await|if|else|try|catch|throw|new|Error)\b.*?(?=\n\n|\n[A-Z]|$)/gs\<close>\<close>
definition re_keyword :: regex where
  "re_keyword =
     Seqs [WordB,
           Alts [Lit ''return'', Lit ''const'', Lit ''let'', Lit ''var'', Lit ''function'',
                 Lit ''async'', Lit ''await'', Lit ''if'', Lit ''else'', Lit ''try'',
                 Lit ''catch'', Lit ''throw'', Lit ''new'', Lit ''Error''],
           WordB, until_break]"

text \<open>\<^verbatim>\<open>/\b\d{4}\b/g\<close> and its replacement function, with \<^verbatim>\<open>parseInt\<close> on a digit string.\<close>
definition re_year :: regex where
  "re_year = Seqs [WordB, Quant 4 (Some 4) True (Cls Digit), WordB]"

fun digit_value :: "string \<Rightarrow> char \<Rightarrow> nat" where
  "digit_value (d # ds) c = (if c = d then 0 else Suc (digit_value ds c))"
| "digit_value [] c = 0"

definition parseInt :: "string \<Rightarrow> nat" where
  "parseInt s = foldl (\<lambda>n c. 10 * n + digit_value ''0123456789'' c) 0 (takeWhile is_digit s)"

definition keep_year :: "string \<Rightarrow> string" where
  "keep_year m = (let year = parseInt m in if 1900 \<le> year \<and> year \<le> 2100 then m else [])"

text \<open>\<^verbatim>\<open>/\n{3,}/g\<close>, \<^verbatim>\<open>/[ \t]+$/gm\<close>, \<^verbatim>\<open>/^[ \t]+$/gm\<close>, \<^verbatim>\<open>/\n\s*\n\s*\n/g\<close>\<close>
definition re_newlines3 :: regex where
  "re_newlines3 = Quant 3 None True (Chr NL)"

definition re_trailing_blanks :: regex where
  "re_trailing_blanks = Seq (Plus (Cls Blank)) Dollar"

definition re_blank_line :: regex where
  "re_blank_line = Seqs [Caret, Plus (Cls Blank), Dollar]"

definition re_empty_lines :: regex where
  "re_empty_lines = Seqs [Chr NL, spaces0, Chr NL, spaces0, Chr NL]"

text \<open>The chain, in the order of the source.\<close>

definition sanitizer_passes :: "(string \<Rightarrow> string) list" where
  "sanitizer_passes =
     [remove_all fl_gs re_api_js,
      remove_all fl_g re_src_ref,
      remove_all fl_gs (re_line_from ''Call Stack''),
      remove_all fl_gs (re_line_from ''async handleProcessCapture''),
      remove_all fl_gs re_response_ok,
      remove_all fl_gs (re_line_from ''throw new Error''),
      remove_all fl_gs (re_line_from ''Processing failed''),
      remove_all fl_gs (re_line_from ''Capture not found''),
      remove_all fl_gs (re_line_from ''Error details:''),
      remove_all fl_gs (re_line_from ''API call failed:''),
      remove_all fl_gs re_console,
      remove_all fl_gs re_at_frame,
      remove_all fl_gs (re_line_from ''Uncaught''),
      remove_all fl_g re_pair_return_date,
      remove_all fl_g re_pair_return,
      remove_all fl_g re_pair,
      remove_all fl_gs re_return_date,
      remove_all fl_g re_slash_triple,
      remove_all fl_g re_short_pair,
      remove_all fl_gs re_keyword,
      replace_all fl_g re_year keep_year,
      replace_all fl_g re_newlines3 (\<lambda>_. [NL, NL]),
      remove_all fl_gm re_trailing_blanks,
      remove_all fl_gm re_blank_line,
      replace_all fl_g re_empty_lines (\<lambda>_. [NL, NL])]"

text \<open>
  \<^verbatim>\<open>rawText\<close> is \<open>None\<close> when the argument is \<^verbatim>\<open>null\<close>, \<^verbatim>\<open>undefined\<close> or not a string;
  the empty string is falsy as well.
\<close>

definition cleanExtractedText :: "string option \<Rightarrow> string" where
  "cleanExtractedText rawText =
     (case rawText of
        None \<Rightarrow> []
      | Some s \<Rightarrow> if s = [] then [] else trim (fold (\<lambda>pass t. pass t) sanitizer_passes s))"

section \<open>Temporal extraction\<close>

text \<open>
  \<^verbatim>\<open>RegExp.prototype.test\<close> (a match at some position) and \<^verbatim>\<open>String.prototype.matchAll\<close>
  (the matched texts with their indices, scanning as \<^verbatim>\<open>replace\<close> does).
\<close>

fun test_from :: "flags \<Rightarrow> regex \<Rightarrow> char option \<Rightarrow> string \<Rightarrow> bool" where
  "test_from fl r prev [] = (rmatch fl r (prev, []) \<noteq> [])"
| "test_from fl r prev (c # cs) =
     (if rmatch fl r (prev, c # cs) \<noteq> [] then True else test_from fl r (Some c) cs)"

definition regex_test :: "flags \<Rightarrow> regex \<Rightarrow> string \<Rightarrow> bool" where
  "regex_test fl r s = test_from fl r None s"

record ctx_entry =
  ctx_text :: string
  ctx_index :: nat

function match_from :: "flags \<Rightarrow> regex \<Rightarrow> nat \<Rightarrow> mstate \<Rightarrow> ctx_entry list" where
  "match_from fl r i st =
     (case rmatch fl r st of
        [] \<Rightarrow> (case snd st of [] \<Rightarrow> [] | c # cs \<Rightarrow> match_from fl r (Suc i) (Some c, cs))
      | st' # _ \<Rightarrow>
          if length (snd st') < length (snd st)
          then (let n = length (snd st) - length (snd st')
                in \<lparr>ctx_text = take n (snd st), ctx_index = i\<rparr> # match_from fl r (i + n) st')
          else \<lparr>ctx_text = [], ctx_index = i\<rparr> #
               (case snd st of [] \<Rightarrow> [] | c # cs \<Rightarrow> match_from fl r (Suc i) (Some c, cs)))"
  by pat_completeness auto
termination
  by (relation "measure (\<lambda>(fl, r, i, st). length (snd st))") auto

definition matchAll :: "flags \<Rightarrow> regex \<Rightarrow> string \<Rightarrow> ctx_entry list" where
  "matchAll fl r s = match_from fl r 0 (None, s)"

text \<open>
  \<^verbatim>\<open>toLowerCase\<close> is applied to matches of the patterns below only, which consist of ASCII
  letters, digits and white space.
\<close>

fun downcase_of :: "string \<Rightarrow> string \<Rightarrow> char \<Rightarrow> char" where
  "downcase_of (u # us) (l # ls) c = (if c = u then l else downcase_of us ls c)"
| "downcase_of _ _ c = c"

definition toLowerCase :: "string \<Rightarrow> string" where
  "toLowerCase s =
     map (downcase_of ''ABCDEFGHIJKLMNOPQRSTUVWXYZ'' ''abcdefghijklmnopqrstuvwxyz'') s"

definition days_of_week :: "regex list" where
  "days_of_week = [Lit ''monday'', Lit ''tuesday'', Lit ''wednesday'', Lit ''thursday'',
                   Lit ''friday'', Lit ''saturday'', Lit ''sunday'']"

text \<open>\<^verbatim>\<open>TEMPORAL_CONTEXT_PATTERNS\<close>, all with the flags \<^verbatim>\<open>gi\<close>.\<close>

definition TEMPORAL_CONTEXT_PATTERNS :: "regex list" where
  "TEMPORAL_CONTEXT_PATTERNS =
     [Seqs [WordB,
            Alts [Lit ''today'', Lit ''yesterday'', Lit ''tomorrow'', Lit ''tonight'',
                  Lit ''this morning'', Lit ''this afternoon'', Lit ''this evening''],
            WordB],
      Seqs [WordB, Lit ''last '',
            Alts ([Lit ''week'', Lit ''month'', Lit ''year'', Lit ''night''] @ days_of_week),
            WordB],
      Seqs [WordB, Lit ''next '',
            Alts ([Lit ''week'', Lit ''month'', Lit ''year''] @ days_of_week),
            WordB],
      Seqs [WordB, digits, spaces0,
            Alts [Seq (Lit ''day'') (Opt (Chr CHR ''s'')), Seq (Lit ''week'') (Opt (Chr CHR ''s'')),
                  Seq (Lit ''month'') (Opt (Chr CHR ''s''))],
            spaces0, Alts [Lit ''ago'', Lit ''from now''], WordB],
      Seqs [WordB, Alts [Lit ''morning'', Lit ''afternoon'', Lit ''evening'', Lit ''night''],
            spaces0,
            Alts [Lit ''pages'', Lit ''journal'', Lit ''notes'', Lit ''thoughts'',
                  Lit ''reflection''],
            WordB]]"

text \<open>
  The context object. Its keys are never integer-like, so the object enumerates them in
  the order of their first insertion, and assigning to a key that exists keeps its place:
  an association list with \<^const>\<open>AList.update\<close>.
\<close>

type_synonym temporal_context = "(string \<times> ctx_entry) list"

definition context_key :: "string \<Rightarrow> string" where
  "context_key m = replace_all fl_g spaces (\<lambda>_. ''_'') (toLowerCase m)"

definition extractTemporalContext :: "string \<Rightarrow> temporal_context" where
  "extractTemporalContext text =
     fold (\<lambda>pattern context.
             fold (\<lambda>m context. AList.update (context_key (ctx_text m)) m context)
                  (matchAll fl_gi pattern text) context)
          TEMPORAL_CONTEXT_PATTERNS []"

text \<open>
  The date parser \<^verbatim>\<open>chrono-node\<close> is a library: what the pipeline reads of one of its
  results is the matched text, its index, the hour component of \<^verbatim>\<open>start\<close>, and the date as
  \<^verbatim>\<open>toISOString\<close> and \<^verbatim>\<open>toTimeString\<close> print it. The components of the library keep the
  values read from the text (\<open>cr_known_hour\<close>: an hour was parsed) apart from the values
  the parser filled in (\<open>cr_implied_hour\<close>; for a match that names no time of day the
  parser implies the hour 12), and \<^verbatim>\<open>start.get("hour")\<close> answers the known value, else the
  implied one, else \<^verbatim>\<open>null\<close>.
\<close>

record chrono_result =
  cr_text :: string
  cr_index :: nat
  cr_known_hour :: "nat option"
  cr_implied_hour :: "nat option"
  cr_iso :: string
  cr_time_string :: string

definition start_get_hour :: "chrono_result \<Rightarrow> nat option" where
  "start_get_hour r = (case cr_known_hour r of Some h \<Rightarrow> Some h | None \<Rightarrow> cr_implied_hour r)"

definition month_names :: "regex list" where
  "month_names = [Lit ''January'', Lit ''February'', Lit ''March'', Lit ''April'', Lit ''May'',
                  Lit ''June'', Lit ''July'', Lit ''August'', Lit ''September'',
                  Lit ''October'', Lit ''November'', Lit ''December'']"

text \<open>\<^verbatim>\<open>/\d{4}/\<close>, \<^verbatim>\<open>/\b(January|...|December)\b/i\<close>, \<^verbatim>\<open>/\b(today|yesterday|tomorrow)\b/i\<close>\<close>

definition has_year :: "string \<Rightarrow> bool" where
  "has_year t = regex_test fl_g (Quant 4 (Some 4) True (Cls Digit)) t"

definition has_month_name :: "string \<Rightarrow> bool" where
  "has_month_name t = regex_test fl_gi (Seqs [WordB, Alts month_names, WordB]) t"

definition has_relative_day :: "string \<Rightarrow> bool" where
  "has_relative_day t =
     regex_test fl_gi
       (Seqs [WordB, Alts [Lit ''today'', Lit ''yesterday'', Lit ''tomorrow''], WordB]) t"

text \<open>
  \<^verbatim>\<open>calculateConfidence\<close>, with the numbers of the language read as reals: the sums are the
  exact ones, not the rounded ones of the 64-bit floating point format.
\<close>

definition calculateConfidence :: "chrono_result \<Rightarrow> string \<Rightarrow> real" where
  "calculateConfidence chronoResult text =
     (let confidence = 0.8;
          confidence = (if has_year (cr_text chronoResult) then confidence + 0.1 else confidence);
          confidence = (if has_month_name (cr_text chronoResult) then confidence + 0.05
                        else confidence);
          confidence = (if start_get_hour chronoResult \<noteq> None then confidence + 0.05
                        else confidence);
          confidence = (if length (cr_text chronoResult) < 5 then confidence - 0.2
                        else confidence);
          confidence = (if has_relative_day (cr_text chronoResult) then confidence - 0.1
                        else confidence)
      in min 1.0 (max 0.0 confidence))"

record raw_match =
  rm_text :: string
  rm_index :: nat
  rm_method :: string

record temporal_info =
  extractedDate :: "string option"
  extractedTime :: "string option"
  extractedDatetime :: "string option"
  confidence :: real
  rawMatches :: "raw_match list"
  temporalContext :: temporal_context

text \<open>\<^verbatim>\<open>s.split(sep)[0]\<close> for a separator of one code unit.\<close>

definition split_first :: "char \<Rightarrow> string \<Rightarrow> string" where
  "split_first sep s = takeWhile (\<lambda>c. c \<noteq> sep) s"

definition truthy :: "string option \<Rightarrow> bool" where
  "truthy v = (case v of None \<Rightarrow> False | Some s \<Rightarrow> s \<noteq> [])"

text \<open>
  \<^verbatim>\<open>extractTemporalInfo\<close>. The parser is the parameter \<open>chrono\<close>, already given the
  reference date; \<open>None\<close> is a parser that throws, which the \<^verbatim>\<open>catch\<close> turns into
  \<^verbatim>\<open>null\<close>. The text is \<open>None\<close> when it is not a string.
\<close>

definition extractTemporalInfo ::
  "(string \<Rightarrow> chrono_result list option) \<Rightarrow> string option \<Rightarrow> temporal_info option" where
  "extractTemporalInfo chrono text =
     (if \<not> truthy text then None
      else
        let t = the text;
            results = \<lparr>extractedDate = None, extractedTime = None, extractedDatetime = None,
                       confidence = 0, rawMatches = [], temporalContext = []\<rparr>
        in case chrono t of
             None \<Rightarrow> None
           | Some chronoResults \<Rightarrow>
               let results =
                     (case chronoResults of
                        [] \<Rightarrow> results
                      | bestMatch # _ \<Rightarrow>
                          results\<lparr>extractedDatetime := Some (cr_iso bestMatch),
                                  extractedDate := Some (split_first CHR ''T'' (cr_iso bestMatch)),
                                  extractedTime :=
                                    (if start_get_hour bestMatch \<noteq> None
                                     then Some (split_first CHR '' '' (cr_time_string bestMatch))
                                     else None),
                                  confidence := calculateConfidence bestMatch t,
                                  rawMatches := [\<lparr>rm_text = cr_text bestMatch,
                                                   rm_index = cr_index bestMatch,
                                                   rm_method = ''chrono''\<rparr>]\<rparr>);
                   results = results\<lparr>temporalContext := extractTemporalContext t\<rparr>
               in if truthy (extractedDate results) \<or> truthy (extractedTime results)
                     \<or> 0 < length (temporalContext results)
                  then Some results else None)"

section \<open>Embedding and the text combiner\<close>

datatype js_error = Error string | StorageError string

definition message :: "js_error \<Rightarrow> string" where
  "message e = (case e of Error m \<Rightarrow> m | StorageError m \<Rightarrow> m)"

type_synonym embedding = "real list"

text \<open>
  \<^verbatim>\<open>generateEmbedding\<close>. The embedding service is the parameter \<open>openai\<close>: for the input
  it is sent it answers with a vector or fails with a message.
\<close>

definition generateEmbedding :: "(string \<Rightarrow> string + embedding) \<Rightarrow> string \<Rightarrow> js_error + embedding" where
  "generateEmbedding openai text =
     (if text = [] \<or> length (trim text) = 0
      then Inl (Error ''No text provided for embedding generation'')
      else case openai (take 8000 text) of
             Inl m \<Rightarrow> Inl (Error (''Embedding generation failed: '' @ m))
           | Inr v \<Rightarrow> Inr v)"

text \<open>
  \<^verbatim>\<open>combineTextForEmbedding\<close>: \<open>parts\<close> is the array the source pushes onto. An argument
  that is \<^verbatim>\<open>null\<close> or \<^verbatim>\<open>undefined\<close> is \<open>None\<close> (the defaults \<^verbatim>\<open>[]\<close> and \<^verbatim>\<open>{}\<close> of the last
  two parameters fail the same tests as \<^verbatim>\<open>null\<close> does).
\<close>

definition combineTextForEmbedding ::
  "string option \<Rightarrow> string option \<Rightarrow> string list option \<Rightarrow> temporal_context option \<Rightarrow> string" where
  "combineTextForEmbedding note extractedText tags temporalCtx =
     (let parts = [];
          parts = (if truthy note \<and> trim (the note) \<noteq> []
                   then parts @ [''Note: '' @ trim (the note)] else parts);
          parts = (if truthy extractedText \<and> trim (the extractedText) \<noteq> []
                   then parts @ [''Content: '' @ trim (the extractedText)] else parts);
          parts = (if tags \<noteq> None \<and> 0 < length (the tags)
                   then parts @ [''Tags: '' @ join '', '' (the tags)] else parts);
          parts = (if temporalCtx \<noteq> None \<and> 0 < length (map fst (the temporalCtx))
                   then (let contextText = join '' '' (map (\<lambda>ctx. ctx_text (snd ctx))
                                                          (the temporalCtx))
                         in parts @ [''Temporal context: '' @ contextText])
                   else parts)
      in join [NL, NL] parts)"

section \<open>Capture processing\<close>

datatype status = Pending | Processing | Completed | Failed

text \<open>A row of the table \<^verbatim>\<open>captures\<close>: the columns \<^verbatim>\<open>media_url\<close>, \<^verbatim>\<open>note\<close> and \<^verbatim>\<open>tags\<close> of the
  user, then the columns the pipeline writes.\<close>

record capture =
  row_media_url :: "string option"
  row_note :: "string option"
  row_tags :: "string list option"
  processing_status :: status
  processed_at :: "string option"
  extracted_text :: "string option"
  embedding :: "embedding option"
  extracted_date :: "string option"
  extracted_time :: "string option"
  extracted_datetime :: "string option"
  date_confidence :: "real option"
  temporal_context :: "temporal_context option"

text \<open>The object given to \<^verbatim>\<open>update\<close>: a field is \<open>None\<close> when the object has no such key.\<close>

record update_data =
  u_extracted_text :: "string option"
  u_processing_status :: "status option"
  u_processed_at :: "string option"
  u_embedding :: "embedding option"
  u_extracted_date :: "string option"
  u_extracted_time :: "string option"
  u_extracted_datetime :: "string option"
  u_date_confidence :: "real option"
  u_temporal_context :: "temporal_context option"

definition no_update :: update_data where
  "no_update = \<lparr>u_extracted_text = None, u_processing_status = None, u_processed_at = None,
                 u_embedding = None, u_extracted_date = None, u_extracted_time = None,
                 u_extracted_datetime = None, u_date_confidence = None,
                 u_temporal_context = None\<rparr>"

definition set_field :: "'a option \<Rightarrow> 'a option \<Rightarrow> 'a option" where
  "set_field new old = (case new of None \<Rightarrow> old | Some v \<Rightarrow> Some v)"

definition apply_update :: "update_data \<Rightarrow> capture \<Rightarrow> capture" where
  "apply_update u c =
     c\<lparr>extracted_text := set_field (u_extracted_text u) (extracted_text c),
       processing_status :=
         (case u_processing_status u of None \<Rightarrow> processing_status c | Some st \<Rightarrow> st),
       processed_at := set_field (u_processed_at u) (processed_at c),
       embedding := set_field (u_embedding u) (embedding c),
       extracted_date := set_field (u_extracted_date u) (extracted_date c),
       extracted_time := set_field (u_extracted_time u) (extracted_time c),
       extracted_datetime := set_field (u_extracted_datetime u) (extracted_datetime c),
       date_confidence := set_field (u_date_confidence u) (date_confidence c),
       temporal_context := set_field (u_temporal_context u) (temporal_context c)\<rparr>"

text \<open>
  The storage client. \<^verbatim>\<open>supabase.from("captures").update(data).eq("id", id)\<close> does not throw:
  it answers with an object whose \<^verbatim>\<open>error\<close> is set when the write failed. The table is
  \<open>rows\<close>; \<open>faults\<close> says, for the writes to come, which ones the storage refuses (and
  with which message; when the list is used up every write goes through); \<open>writes\<close> is
  the log of the writes that were attempted. A refused write leaves the table as it was,
  and a write to an id that has no row changes nothing and is no error.
\<close>

record supabase =
  rows :: "string \<rightharpoonup> capture"
  faults :: "string option list"
  writes :: "(string \<times> update_data) list"

definition update_capture :: "string \<Rightarrow> update_data \<Rightarrow> supabase \<Rightarrow> string option \<times> supabase" where
  "update_capture captureId u sb =
     (let sb' = sb\<lparr>writes := writes sb @ [(captureId, u)], faults := tl (faults sb)\<rparr>
      in case faults sb of
           Some m # _ \<Rightarrow> (Some m, sb')
         | _ \<Rightarrow> (None, sb'\<lparr>rows := (case rows sb captureId of
                                       None \<Rightarrow> rows sb
                                     | Some c \<Rightarrow> (rows sb)(captureId \<mapsto> apply_update u c))\<rparr>))"

text \<open>
  What \<^verbatim>\<open>processCapture\<close> calls outside itself: the text detection of the vision client
  (the descriptions of the annotations it returns, or the message of the error it
  throws), the date parser, the embedding service, and the clock read in the \<^verbatim>\<open>try\<close>
  block and in the \<^verbatim>\<open>catch\<close> block.
\<close>

record world =
  textDetection :: "string \<Rightarrow> string + string option list"
  chrono :: "string \<Rightarrow> chrono_result list option"
  openai :: "string \<Rightarrow> string + embedding"
  now_try :: string
  now_catch :: string

text \<open>\<^verbatim>\<open>extractTextFromImage\<close>; the vision client is initialised when the module loads.\<close>

definition extractTextFromImage :: "world \<Rightarrow> string option \<Rightarrow> js_error + string" where
  "extractTextFromImage w imageUrl =
     (if \<not> truthy imageUrl then Inl (Error ''No image URL provided'')
      else case textDetection w (the imageUrl) of
             Inl m \<Rightarrow> Inl (Error (''Google Vision OCR failed: '' @ m))
           | Inr detections \<Rightarrow>
               (case detections of
                  [] \<Rightarrow> Inr []
                | fullText # _ \<Rightarrow> Inr (cleanExtractedText fullText)))"

record process_result =
  success :: bool
  res_extractedText :: string
  hasEmbedding :: bool
  temporalInfo :: "temporal_info option"

text \<open>The object \<^verbatim>\<open>updateData\<close> of step 5, built the way the source builds it.\<close>

definition build_update_data ::
  "string \<Rightarrow> string \<Rightarrow> embedding option \<Rightarrow> temporal_info option \<Rightarrow> update_data" where
  "build_update_data extractedText now emb tinfo =
     (let updateData = no_update\<lparr>u_extracted_text := Some extractedText,
                                  u_processing_status := Some Completed,
                                  u_processed_at := Some now\<rparr>;
          updateData = (case emb of None \<Rightarrow> updateData
                        | Some e \<Rightarrow> updateData\<lparr>u_embedding := Some e\<rparr>)
      in case tinfo of
           None \<Rightarrow> updateData
         | Some ti \<Rightarrow>
             (let updateData = (if truthy (extractedDate ti)
                                then updateData\<lparr>u_extracted_date := extractedDate ti\<rparr>
                                else updateData);
                  updateData = (if truthy (extractedTime ti)
                                then updateData\<lparr>u_extracted_time := extractedTime ti\<rparr>
                                else updateData);
                  updateData = (if extractedDatetime ti \<noteq> None
                                then updateData\<lparr>u_extracted_datetime := extractedDatetime ti\<rparr>
                                else updateData);
                  updateData = (if confidence ti \<noteq> 0
                                then updateData\<lparr>u_date_confidence := Some (confidence ti)\<rparr>
                                else updateData);
                  updateData = (if 0 < length (temporalContext ti)
                                then updateData\<lparr>u_temporal_context := Some (temporalContext ti)\<rparr>
                                else updateData)
              in updateData))"

text \<open>
  The body of the \<^verbatim>\<open>try\<close> block of \<^verbatim>\<open>processCapture\<close>: its result is the value returned
  or the error thrown, with the storage as it is at that moment.
\<close>

definition processCapture_try ::
  "world \<Rightarrow> string \<Rightarrow> string option \<Rightarrow> string option \<Rightarrow> string list option \<Rightarrow> supabase
     \<Rightarrow> (js_error + process_result) \<times> supabase" where
  "processCapture_try w captureId imageUrl note tags sb =
     (case update_capture captureId (no_update\<lparr>u_processing_status := Some Processing\<rparr>) sb of
        (Some m, sb1) \<Rightarrow> (Inl (Error (''Failed to update processing status: '' @ m)), sb1)
      | (None, sb1) \<Rightarrow>
          (case (if truthy imageUrl then extractTextFromImage w imageUrl else Inr []) of
             Inl e \<Rightarrow> (Inl e, sb1)
           | Inr extractedText \<Rightarrow>
               let allText = join [NL, NL] (filter (\<lambda>t. t \<noteq> [])
                                 ((case note of None \<Rightarrow> [] | Some n \<Rightarrow> [n]) @ [extractedText]));
                   tinfo = extractTemporalInfo (chrono w) (Some allText);
                   combinedText = combineTextForEmbedding note (Some extractedText) tags
                                    (map_option temporalContext tinfo);
                   emb = (if 0 < length (trim combinedText)
                          then (case generateEmbedding (openai w) combinedText of
                                  Inl embeddingError \<Rightarrow> None
                                | Inr v \<Rightarrow> Some v)
                          else None);
                   updateData = build_update_data extractedText (now_try w) emb tinfo
               in case update_capture captureId updateData sb1 of
                    (Some m, sb2) \<Rightarrow> (Inl (StorageError m), sb2)
                  | (None, sb2) \<Rightarrow>
                      (Inr \<lparr>success = True, res_extractedText = extractedText,
                            hasEmbedding = (emb \<noteq> None), temporalInfo = tinfo\<rparr>, sb2)))"

text \<open>
  \<^verbatim>\<open>processCapture\<close>: the \<^verbatim>\<open>try\<close> block, and the \<^verbatim>\<open>catch\<close> block that writes the status
  \<^verbatim>\<open>failed\<close>, does not look at the answer of that write, and throws the error again.
\<close>

definition processCapture ::
  "world \<Rightarrow> string \<Rightarrow> string option \<Rightarrow> string option \<Rightarrow> string list option \<Rightarrow> supabase
     \<Rightarrow> (js_error + process_result) \<times> supabase" where
  "processCapture w captureId imageUrl note tags sb =
     (case processCapture_try w captureId imageUrl note tags sb of
        (Inr r, sb') \<Rightarrow> (Inr r, sb')
      | (Inl error, sb') \<Rightarrow>
          (Inl error,
           snd (update_capture captureId
                  (no_update\<lparr>u_processing_status := Some Failed,
                             u_processed_at := Some (now_catch w)\<rparr>) sb')))"

section \<open>Hybrid search\<close>

datatype search_type = Semantic | Fulltext

text \<open>
  A row that a search returns: its \<^verbatim>\<open>id\<close>, the \<^verbatim>\<open>similarity\<close> the vector search computed
  for it, and its other columns. A merged result is the row spread into a new object with
  the keys \<^verbatim>\<open>searchType\<close> and \<^verbatim>\<open>relevanceScore\<close>.
\<close>

type_synonym columns = "(string \<times> string) list"

record sem_result =
  sr_id :: string
  sr_similarity :: real
  sr_columns :: columns

record ft_result =
  fr_id :: string
  fr_columns :: columns

record search_result =
  res_id :: string
  res_columns :: columns
  res_similarity :: "real option"
  searchType :: search_type
  relevanceScore :: real

text \<open>
  The limits are integers (the route computes them with \<^verbatim>\<open>Math.ceil\<close>, the default is 5).
  \<^verbatim>\<open>xs.slice(0, end)\<close> counts a negative \<open>end\<close> from the end of the array.
\<close>

definition slice0 :: "int \<Rightarrow> 'a list \<Rightarrow> 'a list" where
  "slice0 end xs =
     (let len = int (length xs);
          k = (if end < 0 then max (len + end) 0 else min end len)
      in take (nat k) xs)"

definition of_semantic :: "sem_result \<Rightarrow> search_result" where
  "of_semantic result =
     \<lparr>res_id = sr_id result, res_columns = sr_columns result,
      res_similarity = Some (sr_similarity result),
      searchType = Semantic, relevanceScore = sr_similarity result\<rparr>"

definition of_fulltext :: "int \<Rightarrow> ft_result \<Rightarrow> nat \<Rightarrow> search_result" where
  "of_fulltext fullTextLimit result index =
     \<lparr>res_id = fr_id result, res_columns = fr_columns result, res_similarity = None,
      searchType = Fulltext, relevanceScore = 1 - real index / real_of_int fullTextLimit\<rparr>"

text \<open>
  The \<^verbatim>\<open>Map\<close> \<open>combinedResults\<close> enumerates its keys in the order of their first insertion,
  and \<^verbatim>\<open>set\<close> on a key that exists keeps its place: an association list with
  \<^const>\<open>AList.update\<close>. The two \<^verbatim>\<open>forEach\<close> loops are folds.
\<close>

definition add_semantic ::
  "sem_result list \<Rightarrow> (string \<times> search_result) list \<Rightarrow> (string \<times> search_result) list" where
  "add_semantic semanticResults combinedResults =
     fold (\<lambda>result m. AList.update (sr_id result) (of_semantic result) m)
          semanticResults combinedResults"

definition add_fulltext ::
  "int \<Rightarrow> ft_result list \<Rightarrow> (string \<times> search_result) list \<Rightarrow> (string \<times> search_result) list" where
  "add_fulltext fullTextLimit fullTextResults combinedResults =
     (let sliced = slice0 fullTextLimit fullTextResults
      in fold (\<lambda>(result, index) m.
                 if fr_id result \<in> set (map fst m) then m
                 else AList.update (fr_id result) (of_fulltext fullTextLimit result index) m)
              (zip sliced [0..<length sliced]) combinedResults)"

text \<open>
  Similarities and scores are read as reals. \<^verbatim>\<open>Array.prototype.sort\<close> is stable; with the
  comparator \<^verbatim>\<open>b.relevanceScore - a.relevanceScore\<close> on real scores it returns the stable
  sort by descending score.
\<close>

definition sort_by_score :: "search_result list \<Rightarrow> search_result list" where
  "sort_by_score rs = sort_key (\<lambda>r. - relevanceScore r) rs"

definition merge_results :: "sem_result list \<Rightarrow> ft_result list \<Rightarrow> int \<Rightarrow> search_result list" where
  "merge_results semanticResults fullTextResults fullTextLimit =
     (let combinedResults = [];
          combinedResults = add_semantic semanticResults combinedResults;
          combinedResults = add_fulltext fullTextLimit fullTextResults combinedResults
      in sort_by_score (map snd combinedResults))"

record search_options =
  semanticLimit :: int
  fullTextLimit :: int
  semanticThreshold :: real

definition default_options :: search_options where
  "default_options = \<lparr>semanticLimit = 5, fullTextLimit = 5, semanticThreshold = 0.7\<rparr>"

text \<open>
  The storage functions the searches call: the remote procedure \<^verbatim>\<open>match_captures\<close> and the
  text search on the column \<^verbatim>\<open>search_vector\<close>, each answering with rows or with an error.
\<close>

record search_world =
  sw_openai :: "string \<Rightarrow> string + embedding"
  match_captures :: "embedding \<Rightarrow> real \<Rightarrow> int \<Rightarrow> string \<Rightarrow> string + sem_result list"
  textSearch :: "string \<Rightarrow> string \<Rightarrow> string + ft_result list"

definition semanticSearch ::
  "search_world \<Rightarrow> string \<Rightarrow> string \<Rightarrow> int \<Rightarrow> real \<Rightarrow> js_error + sem_result list" where
  "semanticSearch w query userId limit threshold =
     (case generateEmbedding (sw_openai w) query of
        Inl e \<Rightarrow> Inl (Error (''Semantic search failed: '' @ message e))
      | Inr queryEmbedding \<Rightarrow>
          (case match_captures w queryEmbedding threshold limit userId of
             Inl m \<Rightarrow> Inl (Error (''Semantic search failed: '' @ m))
           | Inr data \<Rightarrow> Inr data))"

definition fullTextSearch :: "search_world \<Rightarrow> string \<Rightarrow> string \<Rightarrow> js_error + ft_result list" where
  "fullTextSearch w query userId =
     (case textSearch w query userId of
        Inl m \<Rightarrow> Inl (Error (''Full-text search failed: '' @ m))
      | Inr data \<Rightarrow> Inr data)"

text \<open>
  \<^verbatim>\<open>hybridSearch\<close>. When both searches fail, \<^verbatim>\<open>Promise.all\<close> rejects with the error that
  comes first in time; the model takes the one of the semantic search.
\<close>

definition hybridSearch ::
  "search_world \<Rightarrow> string \<Rightarrow> string \<Rightarrow> search_options \<Rightarrow> js_error + search_result list" where
  "hybridSearch w query userId options =
     (case semanticSearch w query userId (semanticLimit options) (semanticThreshold options) of
        Inl e \<Rightarrow> Inl (Error (''Hybrid search failed: '' @ message e))
      | Inr semanticResults \<Rightarrow>
          (case fullTextSearch w query userId of
             Inl e \<Rightarrow> Inl (Error (''Hybrid search failed: '' @ message e))
           | Inr fullTextResults \<Rightarrow>
               Inr (merge_results semanticResults fullTextResults (fullTextLimit options))))"

section \<open>Specification-level definitions and example inputs\<close>

subsection \<open>The combiner, as the specification words it\<close>

text \<open>
  The specification of the combiner: four labeled sections in a fixed order, a section
  being absent when its source is absent or empty (for the note and the extracted text:
  empty after trimming), the present ones joined by a blank line.
\<close>

definition trimmed :: "string option \<Rightarrow> string option" where
  "trimmed v = (case v of None \<Rightarrow> None | Some s \<Rightarrow> if trim s = [] then None else Some (trim s))"

definition nonempty :: "'a list option \<Rightarrow> 'a list option" where
  "nonempty v = (case v of None \<Rightarrow> None | Some xs \<Rightarrow> if xs = [] then None else Some xs)"

definition labeled :: "string \<Rightarrow> string option \<Rightarrow> string option" where
  "labeled label body = map_option (\<lambda>b. label @ b) body"

definition present_sections ::
  "string option \<Rightarrow> string option \<Rightarrow> string list option \<Rightarrow> temporal_context option
     \<Rightarrow> string list" where
  "present_sections note extractedText tags ctx =
     List.map_filter (\<lambda>s. s)
       [labeled ''Note: '' (trimmed note),
        labeled ''Content: '' (trimmed extractedText),
        labeled ''Tags: '' (map_option (join '', '') (nonempty tags)),
        labeled ''Temporal context: ''
          (map_option (\<lambda>c. join '' '' (map (\<lambda>e. ctx_text (snd e)) c)) (nonempty ctx))]"

definition combine_spec ::
  "string option \<Rightarrow> string option \<Rightarrow> string list option \<Rightarrow> temporal_context option \<Rightarrow> string" where
  "combine_spec note extractedText tags ctx =
     join [NL, NL] (present_sections note extractedText tags ctx)"

subsection \<open>Storage that refuses writes\<close>

text \<open>\<open>refuses n sb\<close>: the storage \<open>sb\<close> will refuse the \<open>n\<close>-th write from now (counting from 0).\<close>

definition refuses :: "nat \<Rightarrow> supabase \<Rightarrow> bool" where
  "refuses n sb = (case drop n (faults sb) of Some m # _ \<Rightarrow> True | _ \<Rightarrow> False)"

text \<open>The two status writes of \<^verbatim>\<open>processCapture\<close>: the one that opens it, the one of its \<^verbatim>\<open>catch\<close>.\<close>

definition processing_update :: update_data where
  "processing_update = no_update\<lparr>u_processing_status := Some Processing\<rparr>"

definition failed_update :: "world \<Rightarrow> update_data" where
  "failed_update w =
     no_update\<lparr>u_processing_status := Some Failed, u_processed_at := Some (now_catch w)\<rparr>"

subsection \<open>Invariant of the map of combined results\<close>

definition keyed :: "(string \<times> search_result) list \<Rightarrow> bool" where
  "keyed m = (distinct (map fst m) \<and> (\<forall>p \<in> set m. res_id (snd p) = fst p))"

definition ft_step ::
  "int \<Rightarrow> ft_result \<times> nat \<Rightarrow> (string \<times> search_result) list \<Rightarrow> (string \<times> search_result) list" where
  "ft_step ftLimit = (\<lambda>(result, index) m.
                        if fr_id result \<in> set (map fst m) then m
                        else AList.update (fr_id result) (of_fulltext ftLimit result index) m)"

definition combined ::
  "sem_result list \<Rightarrow> ft_result list \<Rightarrow> int \<Rightarrow> (string \<times> search_result) list" where
  "combined sem ft ftLimit = add_fulltext ftLimit ft (add_semantic sem [])"

subsection \<open>Clean text\<close>










subsection \<open>Example inputs\<close>

text \<open>The text of the invoice scenario, and what the sanitizer makes of it.\<close>

definition invoice_text :: string where
  "invoice_text = ''Invoice #1023'' @ [NL] @ ''Date: 03/14/2024'' @ [NL] @ ''Total: $45.00''"

definition invoice_clean :: string where
  "invoice_clean = ''Invoice #'' @ [NL] @ ''Date:'' @ [NL] @ ''Total: $45.00''"









text \<open>
  Worlds and stores for \<^verbatim>\<open>processCapture\<close>: a vision service that fails, one that reads the
  invoice, an embedding service that is down; a pending capture; a store that accepts
  every write and one that refuses the first.
\<close>

definition failing_ocr_world :: world where
  "failing_ocr_world =
     \<lparr>textDetection = (\<lambda>_. Inl ''quota exceeded''), chrono = (\<lambda>_. Some []),
      openai = (\<lambda>_. Inl ''service unavailable''),
      now_try = ''2024-03-14T10:00:00.000Z'', now_catch = ''2024-03-14T10:00:01.000Z''\<rparr>"

definition invoice_world :: world where
  "invoice_world =
     \<lparr>textDetection = (\<lambda>_. Inr [Some invoice_text]), chrono = (\<lambda>_. Some []),
      openai = (\<lambda>_. Inl ''service unavailable''),
      now_try = ''2024-03-14T10:00:00.000Z'', now_catch = ''2024-03-14T10:00:01.000Z''\<rparr>"

definition image_url :: "string option" where
  "image_url = Some ''https://example.org/invoice.png''"

definition pending_capture :: capture where
  "pending_capture =
     \<lparr>row_media_url = image_url, row_note = None, row_tags = None,
      processing_status = Pending, processed_at = None, extracted_text = Some ''old text'',
      embedding = None, extracted_date = None, extracted_time = None,
      extracted_datetime = None, date_confidence = None, temporal_context = None\<rparr>"

definition store_ok :: supabase where
  "store_ok = \<lparr>rows = [''c1'' \<mapsto> pending_capture], faults = [], writes = []\<rparr>"

definition store_refusing_first :: supabase where
  "store_refusing_first =
     \<lparr>rows = [''c1'' \<mapsto> pending_capture], faults = [Some ''connection lost''], writes = []\<rparr>"

text \<open>Search results: the capture \<open>a\<close> is found by both searches.\<close>

definition sem_a :: sem_result where
  "sem_a = \<lparr>sr_id = ''a'', sr_similarity = 0.75, sr_columns = []\<rparr>"

definition ft_a :: ft_result where
  "ft_a = \<lparr>fr_id = ''a'', fr_columns = []\<rparr>"

definition ft_b :: ft_result where
  "ft_b = \<lparr>fr_id = ''b'', fr_columns = []\<rparr>"

text \<open>A search world in which both searches find the capture \<open>a\<close>, and two option records.\<close>

definition search_world_ab :: search_world where
  "search_world_ab =
     \<lparr>sw_openai = (\<lambda>_. Inr [1, 0]),
      match_captures = (\<lambda>_ _ _ _. Inr [sem_a]),
      textSearch = (\<lambda>_ _. Inr [ft_b, ft_a])\<rparr>"

definition options_two :: search_options where
  "options_two = \<lparr>semanticLimit = 5, fullTextLimit = 2, semanticThreshold = 0.7\<rparr>"

definition options_negative :: search_options where
  "options_negative = \<lparr>semanticLimit = 5, fullTextLimit = - 1, semanticThreshold = 0.7\<rparr>"

section \<open>The text sanitizer on the invoice, and idempotence\<close>

declare rep.simps [simp del] replace_from.simps [simp del] match_from.simps [simp del]

lemma trim_Nil: "trim [] = []"
  by (simp add: trim_def)

lemma trim_idem: "trim (trim s) = trim s"
proof -
  define u where "u = dropWhile is_space s"
  define t where "t = rev (dropWhile is_space (rev u))"
  have tt: "trim s = t" by (simp add: trim_def t_def u_def)
  have "u = rev (takeWhile is_space (rev u) @ dropWhile is_space (rev u))"
    by (simp only: takeWhile_dropWhile_id rev_rev_ident)
  then have u: "u = t @ rev (takeWhile is_space (rev u))"
    unfolding rev_append t_def .
  have front: "dropWhile is_space t = t"
  proof (cases "t = []")
    case True then show ?thesis by simp
  next
    case False
    then have "hd t = hd u" using u by (metis hd_append2)
    moreover have "u \<noteq> []" using False u by auto
    then have "\<not> is_space (hd u)" unfolding u_def by (rule hd_dropWhile)
    ultimately show ?thesis by (simp add: dropWhile_eq_self_iff)
  qed
  have rear: "dropWhile is_space (rev t) = rev t" by (simp add: t_def)
  show ?thesis unfolding tt by (simp add: trim_def front rear)
qed

lemma cleanExtractedText_trimmed: "trim (cleanExtractedText x) = cleanExtractedText x"
  by (simp add: cleanExtractedText_def trim_idem trim_Nil split: option.splits)

lemma invoice_eval: "cleanExtractedText (Some invoice_text) = invoice_clean"
  by code_simp



text \<open>
  Claim C2, as stated, fails: on the invoice text the pass
  \<^verbatim>\<open>/\d+\s*\/\s*\d+\s*\/\s*\d+/g\<close> deletes the date, so \<^verbatim>\<open>03/14/2024\<close> does not occur in
  the sanitized text.
\<close>

theorem invoice_date_removed_counterexample:
  "\<not> sublist ''03/14/2024'' (cleanExtractedText (Some invoice_text))"
  unfolding invoice_eval by code_simp

text \<open>
  Claim C2, amended: for the invoice text the sanitizer returns the three lines
  \<^verbatim>\<open>Invoice #\<close>, \<^verbatim>\<open>Date:\<close> and \<^verbatim>\<open>Total: $45.00\<close>. The line labels and the total are kept;
  the date \<^verbatim>\<open>03/14/2024\<close> (a slash-delimited numeric triple) and the number \<^verbatim>\<open>1023\<close> (four
  digits outside 1900..2100) are removed.
\<close>

theorem invoice_sanitized:
  "cleanExtractedText
     (Some (''Invoice #1023'' @ [NL] @ ''Date: 03/14/2024'' @ [NL] @ ''Total: $45.00''))
   = ''Invoice #'' @ [NL] @ ''Date:'' @ [NL] @ ''Total: $45.00''"
  using invoice_eval by (simp only: invoice_text_def invoice_clean_def)

subsection \<open>What a match consumes\<close>











lemma seq_dead_right:
  "(\<And>st'. st' \<in> set (rmatch fl r1 st) \<Longrightarrow> rmatch fl r2 st' = []) \<Longrightarrow>
   rmatch fl (Seq r1 r2) st = []"
  by simp




lemma caret_mem: "st' \<in> set (rmatch fl Caret st) \<Longrightarrow> st' = st"
  by (auto split: option.splits if_splits)

subsection \<open>A pass that finds nothing to change\<close>



subsection \<open>Clean text has nothing to match\<close>





























subsection \<open>The sanitizer on clean text\<close>





























lemma response_ok_pass1:
  "cleanExtractedText (Some ''Call if (response.ok){}Stack foo'') = ''Call Stack foo''"
  by code_simp

lemma response_ok_pass2: "cleanExtractedText (Some ''Call Stack foo'') = []"
  by code_simp




section \<open>Confidence of a temporal match\<close>











section \<open>The text combiner\<close>

text \<open>
  Claim C8: for every note, extracted text, tag list and temporal context, the combiner
  returns the sections Note, Content, Tags, Temporal context of the specification, in
  that order, without the sections whose source is absent or empty, joined by a blank
  line.
\<close>

theorem combiner_sections:
  "combineTextForEmbedding note extractedText tags ctx = combine_spec note extractedText tags ctx"
  unfolding combineTextForEmbedding_def combine_spec_def present_sections_def labeled_def
    trimmed_def nonempty_def truthy_def Let_def List.map_filter_simps
  by (cases "note"; cases extractedText; cases tags; cases ctx) (auto simp: trim_Nil)

section \<open>Properties of the hybrid search\<close>

lemma keyed_Nil: "keyed []"
  by (simp add: keyed_def)

lemma set_update_subset: "set (AList.update k v m) \<subseteq> insert (k, v) (set m)"
  by (induction m) auto

lemma keyed_update: "keyed m \<Longrightarrow> res_id v = k \<Longrightarrow> keyed (AList.update k v m)"
  unfolding keyed_def using set_update_subset[of k v m]
  by (auto simp: distinct_update)

lemma length_update_le: "length (AList.update k v m) \<le> Suc (length m)"
  by (induction m) auto

lemma add_semantic_snoc:
  "add_semantic (sem @ [s]) m = AList.update (sr_id s) (of_semantic s) (add_semantic sem m)"
  by (simp add: add_semantic_def)

lemma keyed_add_semantic: "keyed m \<Longrightarrow> keyed (add_semantic sem m)"
  by (induction sem rule: rev_induct)
     (simp_all add: add_semantic_snoc keyed_update of_semantic_def, simp add: add_semantic_def)

lemma keys_add_semantic: "fst ` set (add_semantic sem m) = fst ` set m \<union> sr_id ` set sem"
  by (induction sem rule: rev_induct)
     (simp add: add_semantic_def, auto simp: add_semantic_snoc dom_update)

lemma length_add_semantic: "length (add_semantic sem m) \<le> length m + length sem"
proof (induction sem rule: rev_induct)
  case Nil
  show ?case by (simp add: add_semantic_def)
next
  case (snoc s sem)
  have "length (add_semantic (sem @ [s]) m) \<le> Suc (length (add_semantic sem m))"
    by (simp add: add_semantic_snoc length_update_le)
  with snoc show ?case by simp
qed

lemma map_of_add_semantic:
  "k \<in> sr_id ` set sem \<Longrightarrow>
   map_of (add_semantic sem m) k = Some (of_semantic (last (filter (\<lambda>s. sr_id s = k) sem)))"
proof (induction sem rule: rev_induct)
  case Nil
  then show ?case by simp
next
  case (snoc s sem)
  show ?case
  proof (cases "sr_id s = k")
    case True
    then show ?thesis by (simp add: add_semantic_snoc update_conv')
  next
    case False
    with snoc.prems have "k \<in> sr_id ` set sem" by auto
    with snoc.IH False show ?thesis by (simp add: add_semantic_snoc update_conv')
  qed
qed

lemma last_filter_semantic:
  assumes "k \<in> sr_id ` set sem"
  shows "last (filter (\<lambda>s. sr_id s = k) sem) \<in> set sem
         \<and> sr_id (last (filter (\<lambda>s. sr_id s = k) sem)) = k"
proof -
  have ne: "filter (\<lambda>s. sr_id s = k) sem \<noteq> []"
    using assms by (auto simp: filter_empty_conv)
  then have "last (filter (\<lambda>s. sr_id s = k) sem) \<in> set (filter (\<lambda>s. sr_id s = k) sem)"
    by (rule last_in_set)
  then show ?thesis by simp
qed

lemma add_fulltext_fold:
  "add_fulltext ftLimit ft m =
     fold (ft_step ftLimit) (zip (slice0 ftLimit ft) [0..<length (slice0 ftLimit ft)]) m"
  by (simp add: add_fulltext_def ft_step_def Let_def)

lemma keyed_ft_step: "keyed m \<Longrightarrow> keyed (ft_step ftLimit p m)"
  by (cases p) (simp add: ft_step_def keyed_update of_fulltext_def)

lemma keyed_ft_fold: "keyed m \<Longrightarrow> keyed (fold (ft_step ftLimit) ps m)"
  by (induction ps arbitrary: m) (simp_all add: keyed_ft_step)

lemma length_ft_step: "length (ft_step ftLimit p m) \<le> Suc (length m)"
  by (cases p) (simp add: ft_step_def length_update_le)

lemma length_ft_fold: "length (fold (ft_step ftLimit) ps m) \<le> length m + length ps"
proof (induction ps arbitrary: m)
  case Nil
  show ?case by simp
next
  case (Cons p ps)
  have "length (fold (ft_step ftLimit) ps (ft_step ftLimit p m))
          \<le> length (ft_step ftLimit p m) + length ps"
    by (rule Cons.IH)
  also have "\<dots> \<le> Suc (length m) + length ps"
    using length_ft_step[of ftLimit p m] by simp
  finally show ?case by simp
qed

lemma keys_ft_step: "fst ` set (ft_step ftLimit p m) = insert (fr_id (fst p)) (fst ` set m)"
  by (cases p) (auto simp: ft_step_def dom_update)

lemma keys_ft_fold:
  "fst ` set (fold (ft_step ftLimit) ps m) = fst ` set m \<union> (fr_id \<circ> fst) ` set ps"
  by (induction ps arbitrary: m) (auto simp: keys_ft_step)

lemma map_of_ft_step_keep:
  assumes "k \<in> fst ` set m"
  shows "map_of (ft_step ftLimit p m) k = map_of m k"
proof (cases p)
  case (Pair r i)
  show ?thesis
  proof (cases "fr_id r \<in> fst ` set m")
    case True
    then show ?thesis by (simp add: Pair ft_step_def)
  next
    case False
    with assms have "k \<noteq> fr_id r" by blast
    with False show ?thesis by (simp add: Pair ft_step_def update_conv')
  qed
qed

lemma map_of_ft_fold_keep:
  "k \<in> fst ` set m \<Longrightarrow> map_of (fold (ft_step ftLimit) ps m) k = map_of m k"
proof (induction ps arbitrary: m)
  case Nil
  show ?case by simp
next
  case (Cons p ps)
  have "k \<in> fst ` set (ft_step ftLimit p m)"
    using Cons.prems by (simp add: keys_ft_step)
  then show ?case
    using Cons.IH[of "ft_step ftLimit p m"] Cons.prems by (simp add: map_of_ft_step_keep)
qed

lemma map_of_ft_fold_new:
  assumes "fr_id r \<notin> fst ` set m" "fr_id r \<notin> (fr_id \<circ> fst) ` set pre"
  shows "map_of (fold (ft_step ftLimit) (pre @ (r, i) # post) m) (fr_id r)
           = Some (of_fulltext ftLimit r i)"
proof -
  let ?m1 = "fold (ft_step ftLimit) pre m"
  have notin: "fr_id r \<notin> fst ` set ?m1"
    using assms by (simp add: keys_ft_fold)
  then have "map_of (ft_step ftLimit (r, i) ?m1) (fr_id r) = Some (of_fulltext ftLimit r i)"
    by (simp add: ft_step_def update_conv')
  moreover have "fr_id r \<in> fst ` set (ft_step ftLimit (r, i) ?m1)"
    by (simp add: keys_ft_step)
  ultimately show ?thesis by (simp add: map_of_ft_fold_keep)
qed

lemma filter_keyed:
  "keyed m \<Longrightarrow> map_of m k = Some v \<Longrightarrow> filter (\<lambda>r. res_id r = k) (map snd m) = [v]"
proof (induction m)
  case Nil
  then show ?case by simp
next
  case (Cons p m)
  have km: "keyed m" using Cons.prems(1) by (simp add: keyed_def)
  show ?case
  proof (cases "fst p = k")
    case True
    have "\<forall>q \<in> set m. res_id (snd q) \<noteq> k"
      using Cons.prems(1) True by (force simp: keyed_def)
    then have "filter (\<lambda>r. res_id r = k) (map snd m) = []"
      by (auto simp: filter_empty_conv)
    moreover have "snd p = v" "res_id (snd p) = k"
      using Cons.prems True by (auto simp: keyed_def)
    ultimately show ?thesis by simp
  next
    case False
    then have "map_of m k = Some v"
      using Cons.prems(2) by (cases p) (auto split: if_splits)
    moreover have "res_id (snd p) \<noteq> k"
      using Cons.prems(1) False by (auto simp: keyed_def)
    ultimately show ?thesis using Cons.IH[OF km] by simp
  qed
qed

lemma keyed_distinct_ids: "keyed m \<Longrightarrow> distinct (map res_id (map snd m))"
proof -
  assume k: "keyed m"
  then have "\<forall>p \<in> set m. (res_id \<circ> snd) p = fst p" by (simp add: keyed_def)
  then have "map (res_id \<circ> snd) m = map fst m" by (simp cong: map_cong)
  then show ?thesis unfolding map_map using k by (simp only: keyed_def)
qed

lemma distinct_map_sort: "distinct (map g (sort_key f xs)) = distinct (map g xs)"
  by (simp add: distinct_map)

lemma sorted_by_score:
  "sorted_wrt (\<lambda>a b. relevanceScore b \<le> relevanceScore a) (sort_by_score rs)"
proof -
  have "sorted (map (\<lambda>r. - relevanceScore r) (sort_by_score rs))"
    unfolding sort_by_score_def by (rule sorted_sort_key)
  then show ?thesis by (simp add: sorted_map)
qed

lemma merge_results_combined:
  "merge_results sem ft ftLimit = sort_by_score (map snd (combined sem ft ftLimit))"
  by (simp add: merge_results_def combined_def Let_def)

lemma keyed_combined: "keyed (combined sem ft ftLimit)"
  by (simp add: combined_def add_fulltext_fold keyed_ft_fold keyed_add_semantic keyed_Nil)

lemma filter_merge:
  "map_of (combined sem ft ftLimit) k = Some v \<Longrightarrow>
   filter (\<lambda>r. res_id r = k) (merge_results sem ft ftLimit) = [v]"
  by (simp add: merge_results_combined sort_by_score_def filter_sort
        filter_keyed[OF keyed_combined])

lemma merge_semantic_priority:
  assumes "k \<in> sr_id ` set sem"
  shows "filter (\<lambda>r. res_id r = k) (merge_results sem ft ftLimit)
           = [of_semantic (last (filter (\<lambda>s. sr_id s = k) sem))]"
proof -
  have "k \<in> fst ` set (add_semantic sem [])"
    using assms by (simp add: keys_add_semantic)
  then have "map_of (combined sem ft ftLimit) k = map_of (add_semantic sem []) k"
    by (simp add: combined_def add_fulltext_fold map_of_ft_fold_keep)
  then show ?thesis using assms by (simp add: filter_merge map_of_add_semantic)
qed

lemma slice0_nonneg: "0 \<le> ftLimit \<Longrightarrow> slice0 ftLimit xs = take (nat ftLimit) xs"
  by (auto simp: slice0_def Let_def min_def)

lemma length_slice0: "0 \<le> ftLimit \<Longrightarrow> int (length (slice0 ftLimit xs)) \<le> ftLimit"
  by (auto simp: slice0_nonneg)

lemma merge_distinct: "distinct (map res_id (merge_results sem ft ftLimit))"
  by (simp add: merge_results_combined sort_by_score_def distinct_map_sort
        keyed_distinct_ids[OF keyed_combined, simplified])

lemma merge_length:
  assumes l: "0 \<le> ftLimit"
  shows "int (length (merge_results sem ft ftLimit)) \<le> int (length sem) + ftLimit"
proof -
  let ?ps = "zip (slice0 ftLimit ft) [0..<length (slice0 ftLimit ft)]"
  have "length (combined sem ft ftLimit) \<le> length (add_semantic sem []) + length ?ps"
    unfolding combined_def add_fulltext_fold by (rule length_ft_fold)
  also have "\<dots> \<le> length sem + length (slice0 ftLimit ft)"
    using length_add_semantic[of sem "[]"] by simp
  finally have "int (length (combined sem ft ftLimit))
                  \<le> int (length sem) + int (length (slice0 ftLimit ft))"
    by linarith
  then show ?thesis
    using length_slice0[OF l, of ft] by (simp add: merge_results_combined sort_by_score_def)
qed

lemma merge_fulltext_entry:
  assumes "i < length ft" "int i < ftLimit" "fr_id (ft ! i) \<notin> sr_id ` set sem"
     "fr_id (ft ! i) \<notin> fr_id ` set (take i ft)"
  shows "filter (\<lambda>r. res_id r = fr_id (ft ! i)) (merge_results sem ft ftLimit)
           = [of_fulltext ftLimit (ft ! i) i]"
proof -
  let ?sl = "slice0 ftLimit ft"
  let ?ps = "zip ?sl [0..<length ?sl]"
  have sl: "?sl = take (nat ftLimit) ft" using assms(2) by (simp add: slice0_nonneg)
  have i: "i < length ?sl" using assms(1,2) by (simp add: sl)
  then have ips: "i < length ?ps" by simp
  have nth: "?ps ! i = (ft ! i, i)" using i by (simp add: sl)
  have pre: "take i ?ps = zip (take i ft) [0..<i]"
    using i assms(2) by (simp add: sl take_zip take_upt min_def)
  have split: "?ps = take i ?ps @ (ft ! i, i) # drop (Suc i) ?ps"
    using id_take_nth_drop[OF ips] nth by simp
  have notpre: "fr_id (ft ! i) \<notin> (fr_id \<circ> fst) ` set (take i ?ps)"
  proof
    assume "fr_id (ft ! i) \<in> (fr_id \<circ> fst) ` set (take i ?ps)"
    then obtain r j where rj: "(r, j) \<in> set (zip (take i ft) [0..<i])" "fr_id r = fr_id (ft ! i)"
      unfolding pre by auto
    from rj(1) have "r \<in> set (take i ft)" by (rule set_zip_leftD)
    then have "fr_id r \<in> fr_id ` set (take i ft)" by (rule imageI)
    with rj(2) assms(4) show False by simp
  qed
  have notsem: "fr_id (ft ! i) \<notin> fst ` set (add_semantic sem [])"
    using assms(3) by (simp add: keys_add_semantic)
  have "map_of (combined sem ft ftLimit) (fr_id (ft ! i)) = Some (of_fulltext ftLimit (ft ! i) i)"
    unfolding combined_def add_fulltext_fold
    by (subst split) (rule map_of_ft_fold_new[OF notsem notpre])
  then show ?thesis by (rule filter_merge)
qed

lemma hybridSearch_success:
  assumes "semanticSearch w query userId (semanticLimit options) (semanticThreshold options) = Inr sem"
      and "fullTextSearch w query userId = Inr ft"
  shows "hybridSearch w query userId options = Inr (merge_results sem ft (fullTextLimit options))"
  using assms by (simp add: hybridSearch_def)

lemma search_ab_semantic:
  "semanticSearch search_world_ab ''invoice'' ''u1'' 5 0.7 = Inr [sem_a]"
  by (simp add: semanticSearch_def search_world_ab_def generateEmbedding_def trim_def is_space_def)

lemma search_ab_fulltext: "fullTextSearch search_world_ab ''invoice'' ''u1'' = Inr [ft_b, ft_a]"
  by (simp add: fullTextSearch_def search_world_ab_def)

text \<open>
  Claim C4: when the semantic search and the full-text search both return the capture
  id \<open>k\<close>, the merged list has exactly one entry for \<open>k\<close>; it is the semantic row
  (the last one with that id, should the semantic search return the id twice), its
  \<^verbatim>\<open>searchType\<close> is \<^verbatim>\<open>semantic\<close> and its \<^verbatim>\<open>relevanceScore\<close> is the similarity of that row.
\<close>

theorem hybrid_semantic_priority:
  assumes "semanticSearch w query userId (semanticLimit options) (semanticThreshold options) = Inr sem"
      and "fullTextSearch w query userId = Inr ft"
      and "k \<in> sr_id ` set sem" and "k \<in> fr_id ` set ft"
  shows "\<exists>rs s. hybridSearch w query userId options = Inr rs
           \<and> s \<in> set sem \<and> sr_id s = k
           \<and> filter (\<lambda>r. res_id r = k) rs = [of_semantic s]
           \<and> searchType (of_semantic s) = Semantic
           \<and> relevanceScore (of_semantic s) = sr_similarity s"
proof -
  let ?s = "last (filter (\<lambda>s. sr_id s = k) sem)"
  have "hybridSearch w query userId options = Inr (merge_results sem ft (fullTextLimit options))"
    using assms(1,2) by (rule hybridSearch_success)
  moreover have "?s \<in> set sem \<and> sr_id ?s = k"
    using assms(3) by (rule last_filter_semantic)
  moreover have "filter (\<lambda>r. res_id r = k) (merge_results sem ft (fullTextLimit options))
                   = [of_semantic ?s]"
    using assms(3) by (rule merge_semantic_priority)
  moreover have "searchType (of_semantic ?s) = Semantic"
                "relevanceScore (of_semantic ?s) = sr_similarity ?s"
    by (simp_all add: of_semantic_def)
  ultimately show ?thesis by blast
qed

theorem hybrid_semantic_priority_witness:
  "semanticSearch search_world_ab ''invoice'' ''u1'' (semanticLimit options_two)
     (semanticThreshold options_two) = Inr [sem_a]
   \<and> fullTextSearch search_world_ab ''invoice'' ''u1'' = Inr [ft_b, ft_a]
   \<and> ''a'' \<in> sr_id ` set [sem_a] \<and> ''a'' \<in> fr_id ` set [ft_b, ft_a]
   \<and> (\<exists>rs. hybridSearch search_world_ab ''invoice'' ''u1'' options_two = Inr rs
         \<and> filter (\<lambda>r. res_id r = ''a'') rs = [of_semantic sem_a])"
proof -
  have h1: "semanticSearch search_world_ab ''invoice'' ''u1'' (semanticLimit options_two)
              (semanticThreshold options_two) = Inr [sem_a]"
    using search_ab_semantic by (simp add: options_two_def)
  have h2: "fullTextSearch search_world_ab ''invoice'' ''u1'' = Inr [ft_b, ft_a]"
    by (rule search_ab_fulltext)
  have h3: "''a'' \<in> sr_id ` set [sem_a]" by (simp add: sem_a_def)
  have h4: "''a'' \<in> fr_id ` set [ft_b, ft_a]" by (simp add: ft_a_def)
  from hybrid_semantic_priority[OF h1 h2 h3 h4]
  have "\<exists>rs. hybridSearch search_world_ab ''invoice'' ''u1'' options_two = Inr rs
         \<and> filter (\<lambda>r. res_id r = ''a'') rs = [of_semantic sem_a]"
    by auto
  with h1 h2 h3 h4 show ?thesis by blast
qed

text \<open>
  Claim C5: the merged list is in descending order of \<^verbatim>\<open>relevanceScore\<close>, whatever the
  two searches return; and the full-text result at rank \<open>i\<close> below \<^verbatim>\<open>fullTextLimit\<close>,
  when its id was returned neither by the semantic search nor at an earlier full-text
  rank, is the one entry of its id, with \<^verbatim>\<open>relevanceScore\<close> \<open>1 - i / fullTextLimit\<close>.
\<close>

theorem hybrid_fulltext_score_and_order:
  assumes "semanticSearch w query userId (semanticLimit options) (semanticThreshold options) = Inr sem"
      and "fullTextSearch w query userId = Inr ft"
  shows "\<exists>rs. hybridSearch w query userId options = Inr rs
           \<and> sorted_wrt (\<lambda>a b. relevanceScore b \<le> relevanceScore a) rs
           \<and> (i < length ft \<and> int i < fullTextLimit options
                \<and> fr_id (ft ! i) \<notin> sr_id ` set sem \<and> fr_id (ft ! i) \<notin> fr_id ` set (take i ft)
              \<longrightarrow> filter (\<lambda>r. res_id r = fr_id (ft ! i)) rs
                    = [of_fulltext (fullTextLimit options) (ft ! i) i]
                  \<and> searchType (of_fulltext (fullTextLimit options) (ft ! i) i) = Fulltext
                  \<and> relevanceScore (of_fulltext (fullTextLimit options) (ft ! i) i)
                    = 1 - real i / real_of_int (fullTextLimit options))"
proof -
  have "hybridSearch w query userId options = Inr (merge_results sem ft (fullTextLimit options))"
    using assms by (rule hybridSearch_success)
  moreover have "sorted_wrt (\<lambda>a b. relevanceScore b \<le> relevanceScore a)
                   (merge_results sem ft (fullTextLimit options))"
    unfolding merge_results_combined by (rule sorted_by_score)
  moreover have "i < length ft \<and> int i < fullTextLimit options
                \<and> fr_id (ft ! i) \<notin> sr_id ` set sem \<and> fr_id (ft ! i) \<notin> fr_id ` set (take i ft)
              \<longrightarrow> filter (\<lambda>r. res_id r = fr_id (ft ! i)) (merge_results sem ft (fullTextLimit options))
                    = [of_fulltext (fullTextLimit options) (ft ! i) i]"
    using merge_fulltext_entry[of i ft "fullTextLimit options" sem] by blast
  moreover have "searchType (of_fulltext (fullTextLimit options) (ft ! i) i) = Fulltext"
    "relevanceScore (of_fulltext (fullTextLimit options) (ft ! i) i)
       = 1 - real i / real_of_int (fullTextLimit options)"
    by (simp_all add: of_fulltext_def)
  ultimately show ?thesis by blast
qed

theorem hybrid_fulltext_score_and_order_witness:
  "semanticSearch search_world_ab ''invoice'' ''u1'' (semanticLimit options_two)
     (semanticThreshold options_two) = Inr [sem_a]
   \<and> fullTextSearch search_world_ab ''invoice'' ''u1'' = Inr [ft_b, ft_a]
   \<and> 0 < length [ft_b, ft_a] \<and> int 0 < fullTextLimit options_two
   \<and> fr_id ([ft_b, ft_a] ! 0) \<notin> sr_id ` set [sem_a]
   \<and> fr_id ([ft_b, ft_a] ! 0) \<notin> fr_id ` set (take 0 [ft_b, ft_a])
   \<and> (\<exists>rs. hybridSearch search_world_ab ''invoice'' ''u1'' options_two = Inr rs
         \<and> sorted_wrt (\<lambda>a b. relevanceScore b \<le> relevanceScore a) rs
         \<and> filter (\<lambda>r. res_id r = ''b'') rs = [of_fulltext 2 ft_b 0]
         \<and> relevanceScore (of_fulltext 2 ft_b 0) = 1)"
proof -
  have h1: "semanticSearch search_world_ab ''invoice'' ''u1'' (semanticLimit options_two)
              (semanticThreshold options_two) = Inr [sem_a]"
    using search_ab_semantic by (simp add: options_two_def)
  have h2: "fullTextSearch search_world_ab ''invoice'' ''u1'' = Inr [ft_b, ft_a]"
    by (rule search_ab_fulltext)
  have h3: "0 < length [ft_b, ft_a] \<and> int 0 < fullTextLimit options_two
     \<and> fr_id ([ft_b, ft_a] ! 0) \<notin> sr_id ` set [sem_a]
     \<and> fr_id ([ft_b, ft_a] ! 0) \<notin> fr_id ` set (take 0 [ft_b, ft_a])"
    by (simp add: options_two_def ft_b_def sem_a_def)
  from hybrid_fulltext_score_and_order[OF h1 h2, of 0] h3
  have "\<exists>rs. hybridSearch search_world_ab ''invoice'' ''u1'' options_two = Inr rs
         \<and> sorted_wrt (\<lambda>a b. relevanceScore b \<le> relevanceScore a) rs
         \<and> filter (\<lambda>r. res_id r = ''b'') rs = [of_fulltext 2 ft_b 0]
         \<and> relevanceScore (of_fulltext 2 ft_b 0) = 1"
    by (auto simp: options_two_def ft_b_def)
  with h1 h2 h3 show ?thesis by blast
qed

text \<open>
  Claim C10, as stated, fails for a negative \<^verbatim>\<open>fullTextLimit\<close>: \<^verbatim>\<open>slice(0, -1)\<close> keeps all
  full-text results but the last, so with one semantic result, two full-text results and
  the limit \<open>-1\<close> the search returns two results, more than \<open>1 + (-1)\<close>.
\<close>

theorem hybrid_count_negative_limit_counterexample:
  "semanticSearch search_world_ab ''invoice'' ''u1'' (semanticLimit options_negative)
     (semanticThreshold options_negative) = Inr [sem_a]
   \<and> map_sum message (map res_id)
        (hybridSearch search_world_ab ''invoice'' ''u1'' options_negative) = Inr [''b'', ''a'']
   \<and> \<not> int (length [''b'', ''a'']) \<le> int (length [sem_a]) + fullTextLimit options_negative"
proof -
  have h1: "semanticSearch search_world_ab ''invoice'' ''u1'' (semanticLimit options_negative)
              (semanticThreshold options_negative) = Inr [sem_a]"
    using search_ab_semantic by (simp add: options_negative_def)
  have "hybridSearch search_world_ab ''invoice'' ''u1'' options_negative
          = Inr (merge_results [sem_a] [ft_b, ft_a] (fullTextLimit options_negative))"
    using h1 search_ab_fulltext by (rule hybridSearch_success)
  moreover have "map res_id (merge_results [sem_a] [ft_b, ft_a] (- 1)) = [''b'', ''a'']"
    by (simp add: merge_results_def add_semantic_def add_fulltext_def slice0_def Let_def
          sort_by_score_def of_semantic_def of_fulltext_def sem_a_def ft_a_def ft_b_def)
  ultimately show ?thesis using h1 by (simp add: options_negative_def)
qed

text \<open>
  Claim C10, amended: every capture id occurs at most once in the result of the hybrid
  search; and when \<^verbatim>\<open>fullTextLimit\<close> is not negative, the number of results is at most the
  number of semantic results plus \<^verbatim>\<open>fullTextLimit\<close>, hence at most
  \<^verbatim>\<open>semanticLimit + fullTextLimit\<close> when the semantic search keeps to its limit.
\<close>

theorem hybrid_distinct_and_bounded:
  assumes "semanticSearch w query userId (semanticLimit options) (semanticThreshold options) = Inr sem"
      and "fullTextSearch w query userId = Inr ft"
  shows "\<exists>rs. hybridSearch w query userId options = Inr rs
           \<and> distinct (map res_id rs)
           \<and> (0 \<le> fullTextLimit options
                \<longrightarrow> int (length rs) \<le> int (length sem) + fullTextLimit options
                  \<and> (int (length sem) \<le> semanticLimit options
                       \<longrightarrow> int (length rs) \<le> semanticLimit options + fullTextLimit options))"
proof -
  have "hybridSearch w query userId options = Inr (merge_results sem ft (fullTextLimit options))"
    using assms by (rule hybridSearch_success)
  moreover have "distinct (map res_id (merge_results sem ft (fullTextLimit options)))"
    by (rule merge_distinct)
  moreover have "0 \<le> fullTextLimit options
       \<longrightarrow> int (length (merge_results sem ft (fullTextLimit options)))
             \<le> int (length sem) + fullTextLimit options"
    using merge_length by blast
  ultimately show ?thesis by fastforce
qed

theorem hybrid_distinct_and_bounded_witness:
  "semanticSearch search_world_ab ''invoice'' ''u1'' (semanticLimit options_two)
     (semanticThreshold options_two) = Inr [sem_a]
   \<and> fullTextSearch search_world_ab ''invoice'' ''u1'' = Inr [ft_b, ft_a]
   \<and> 0 \<le> fullTextLimit options_two
   \<and> int (length [sem_a]) \<le> semanticLimit options_two
   \<and> (\<exists>rs. hybridSearch search_world_ab ''invoice'' ''u1'' options_two = Inr rs
         \<and> distinct (map res_id rs) \<and> int (length rs) \<le> 1 + 2 \<and> int (length rs) \<le> 5 + 2)"
proof -
  have h1: "semanticSearch search_world_ab ''invoice'' ''u1'' (semanticLimit options_two)
              (semanticThreshold options_two) = Inr [sem_a]"
    using search_ab_semantic by (simp add: options_two_def)
  have h2: "fullTextSearch search_world_ab ''invoice'' ''u1'' = Inr [ft_b, ft_a]"
    by (rule search_ab_fulltext)
  have h3: "0 \<le> fullTextLimit options_two \<and> int (length [sem_a]) \<le> semanticLimit options_two"
    by (simp add: options_two_def)
  from hybrid_distinct_and_bounded[OF h1 h2] h3
  have "\<exists>rs. hybridSearch search_world_ab ''invoice'' ''u1'' options_two = Inr rs
         \<and> distinct (map res_id rs) \<and> int (length rs) \<le> 1 + 2 \<and> int (length rs) \<le> 5 + 2"
    by (auto simp: options_two_def)
  with h1 h2 h3 show ?thesis by blast
qed

section \<open>Properties of capture processing\<close>

lemma update_capture_refused:
  "faults sb = Some m # fs \<Longrightarrow>
   update_capture k u sb = (Some m, sb\<lparr>writes := writes sb @ [(k, u)], faults := fs\<rparr>)"
  by (simp add: update_capture_def Let_def)

lemma update_capture_accepted:
  "\<not> refuses 0 sb \<Longrightarrow> rows sb k = Some c \<Longrightarrow>
   update_capture k u sb =
     (None, sb\<lparr>writes := writes sb @ [(k, u)], faults := tl (faults sb),
               rows := (rows sb)(k \<mapsto> apply_update u c)\<rparr>)"
  by (auto simp: update_capture_def refuses_def Let_def split: list.splits option.splits)

lemma refuses_tl:
  "refuses n (sb\<lparr>writes := ws, faults := tl (faults sb), rows := rs\<rparr>) = refuses (Suc n) sb"
  by (simp add: refuses_def drop_Suc)

lemma apply_failed:
  "apply_update (failed_update w) c
     = c\<lparr>processing_status := Failed, processed_at := Some (now_catch w)\<rparr>"
  by (simp add: apply_update_def failed_update_def no_update_def set_field_def)

lemma apply_failed_processing:
  "apply_update (failed_update w) (apply_update processing_update c)
     = c\<lparr>processing_status := Failed, processed_at := Some (now_catch w)\<rparr>"
  by (simp add: apply_update_def failed_update_def processing_update_def no_update_def
        set_field_def)

lemma apply_processing:
  "apply_update processing_update c = c\<lparr>processing_status := Processing\<rparr>"
  by (simp add: apply_update_def processing_update_def no_update_def set_field_def)

lemma try_refused:
  assumes "faults sb = Some m # fs"
  shows "processCapture_try w captureId imageUrl note tags sb =
     (Inl (Error (''Failed to update processing status: '' @ m)),
      sb\<lparr>writes := writes sb @ [(captureId, processing_update)], faults := fs\<rparr>)"
  by (simp add: processCapture_try_def update_capture_refused[OF assms] processing_update_def)





text \<open>
  Claim C1, as stated, fails: the first write is inside the \<^verbatim>\<open>try\<close> block, so when the
  storage refuses it the \<^verbatim>\<open>catch\<close> block still writes the status \<^verbatim>\<open>failed\<close>. Here the
  storage refuses the first write only, and the capture ends up \<^verbatim>\<open>failed\<close>.
\<close>

theorem initial_write_failure_counterexample:
  "faults store_refusing_first = [Some ''connection lost'']
   \<and> map (u_processing_status \<circ> snd)
        (writes (snd (processCapture failing_ocr_world ''c1'' image_url None None
                        store_refusing_first)))
       = [Some Processing, Some Failed]
   \<and> map_option processing_status
        (rows (snd (processCapture failing_ocr_world ''c1'' image_url None None
                      store_refusing_first)) ''c1'')
       = Some Failed"
  by (simp add: processCapture_def processCapture_try_def update_capture_def
        store_refusing_first_def Let_def no_update_def apply_update_def set_field_def
        pending_capture_def)

text \<open>
  Claim C1, amended: when the storage refuses the first write with the message \<open>m\<close>,
  \<^verbatim>\<open>processCapture\<close> fails with the status-update error and runs neither the text
  detection nor the embedding, and it attempts exactly one more write, the one that sets
  the status \<^verbatim>\<open>failed\<close> and the processed timestamp; when the storage accepts that
  write the capture ends up \<^verbatim>\<open>failed\<close>, otherwise the table is unchanged.
\<close>

theorem initial_write_failure_marks_failed:
  assumes "faults sb = Some m # fs"
  shows "fst (processCapture w captureId imageUrl note tags sb) =
           Inl (Error (''Failed to update processing status: '' @ m))
       \<and> writes (snd (processCapture w captureId imageUrl note tags sb)) =
           writes sb @ [(captureId, processing_update), (captureId, failed_update w)]
       \<and> rows (snd (processCapture w captureId imageUrl note tags sb)) =
           (case rows sb captureId of
              None \<Rightarrow> rows sb
            | Some c \<Rightarrow> if refuses 1 sb then rows sb
                        else (rows sb)(captureId \<mapsto> c\<lparr>processing_status := Failed,
                                                       processed_at := Some (now_catch w)\<rparr>))"
  unfolding processCapture_def try_refused[OF assms]
  using assms
  by (auto simp: update_capture_def Let_def refuses_def apply_failed failed_update_def[symmetric]
           split: list.splits option.splits)

theorem initial_write_failure_marks_failed_witness:
  "faults store_refusing_first = Some ''connection lost'' # []
   \<and> fst (processCapture invoice_world ''c1'' image_url None None store_refusing_first) =
       Inl (Error ''Failed to update processing status: connection lost'')
   \<and> map (u_processing_status \<circ> snd)
       (writes (snd (processCapture invoice_world ''c1'' image_url None None
                       store_refusing_first)))
       = [Some Processing, Some Failed]
   \<and> rows (snd (processCapture invoice_world ''c1'' image_url None None store_refusing_first)) =
       [''c1'' \<mapsto> pending_capture\<lparr>processing_status := Failed,
                                     processed_at := Some ''2024-03-14T10:00:01.000Z''\<rparr>]"
proof -
  have h: "faults store_refusing_first = Some ''connection lost'' # []"
    by (simp add: store_refusing_first_def)
  have r: "rows store_refusing_first ''c1'' = Some pending_capture"
          "\<not> refuses (Suc 0) store_refusing_first" "writes store_refusing_first = []"
          "rows store_refusing_first = [''c1'' \<mapsto> pending_capture]"
    by (simp_all add: store_refusing_first_def refuses_def)
  show ?thesis
    using h initial_write_failure_marks_failed[OF h, of invoice_world "''c1''" image_url None None]
    by (simp add: r processing_update_def failed_update_def no_update_def invoice_world_def)
qed

text \<open>
  Claim C9: when the text detection throws (the first write having been accepted),
  \<^verbatim>\<open>processCapture\<close> fails with the error of the text detection; if the storage accepts
  the write of the \<^verbatim>\<open>catch\<close> block, the row of the capture is its old row with the status
  \<^verbatim>\<open>failed\<close> and the processed timestamp, and nothing else changed: the extracted text,
  the embedding and the temporal fields are the old ones. (If the storage refuses that
  write, the row is the old row with the status \<^verbatim>\<open>processing\<close>.) No other row changes.
\<close>

theorem ocr_failure_isolated:
  assumes "truthy imageUrl" and "textDetection w (the imageUrl) = Inl m"
      and "rows sb captureId = Some c" and "\<not> refuses 0 sb"
  shows "fst (processCapture w captureId imageUrl note tags sb) =
           Inl (Error (''Google Vision OCR failed: '' @ m))
       \<and> rows (snd (processCapture w captureId imageUrl note tags sb)) =
           (rows sb)(captureId \<mapsto>
              (if refuses 1 sb then c\<lparr>processing_status := Processing\<rparr>
               else c\<lparr>processing_status := Failed, processed_at := Some (now_catch w)\<rparr>))"
proof -
  let ?sb1 = "sb\<lparr>writes := writes sb @ [(captureId, processing_update)],
                 faults := tl (faults sb),
                 rows := (rows sb)(captureId \<mapsto> apply_update processing_update c)\<rparr>"
  have ocr: "extractTextFromImage w imageUrl = Inl (Error (''Google Vision OCR failed: '' @ m))"
    using assms(1,2) by (simp add: extractTextFromImage_def)
  have tr: "processCapture_try w captureId imageUrl note tags sb =
               (Inl (Error (''Google Vision OCR failed: '' @ m)), ?sb1)"
    using assms(1) ocr update_capture_accepted[OF assms(4,3), of processing_update]
    by (simp add: processCapture_try_def processing_update_def)
  show ?thesis
  proof (cases "refuses 1 sb")
    case True
    then obtain m' fs where "faults ?sb1 = Some m' # fs"
      by (auto simp: refuses_def drop_Suc split: list.splits option.splits)
    then show ?thesis
      using True
      by (simp add: processCapture_def tr failed_update_def[symmetric] update_capture_refused
            apply_processing)
  next
    case False
    then have "\<not> refuses 0 ?sb1" by (simp add: refuses_tl)
    moreover have "rows ?sb1 captureId = Some (apply_update processing_update c)" by simp
    ultimately show ?thesis
      using False
      by (simp add: processCapture_def tr failed_update_def[symmetric] update_capture_accepted
            apply_failed_processing)
  qed
qed

theorem ocr_failure_isolated_witness:
  "truthy image_url \<and> textDetection failing_ocr_world (the image_url) = Inl ''quota exceeded''
   \<and> rows store_ok ''c1'' = Some pending_capture \<and> \<not> refuses 0 store_ok
   \<and> fst (processCapture failing_ocr_world ''c1'' image_url None None store_ok) =
       Inl (Error ''Google Vision OCR failed: quota exceeded'')
   \<and> rows (snd (processCapture failing_ocr_world ''c1'' image_url None None store_ok)) =
       [''c1'' \<mapsto> pending_capture\<lparr>processing_status := Failed,
                                     processed_at := Some ''2024-03-14T10:00:01.000Z''\<rparr>]"
proof -
  have h1: "truthy image_url" by (simp add: truthy_def image_url_def)
  have h2: "textDetection failing_ocr_world (the image_url) = Inl ''quota exceeded''"
    by (simp add: failing_ocr_world_def)
  have h3: "rows store_ok ''c1'' = Some pending_capture" by (simp add: store_ok_def)
  have h4: "\<not> refuses 0 store_ok" by (simp add: refuses_def store_ok_def)
  have r: "\<not> refuses (Suc 0) store_ok" "rows store_ok = [''c1'' \<mapsto> pending_capture]"
          "now_catch failing_ocr_world = ''2024-03-14T10:00:01.000Z''"
    by (simp_all add: refuses_def store_ok_def failing_ocr_world_def)
  show ?thesis
    using h1 h2 h3 h4 ocr_failure_isolated[OF h1 h2 h3 h4, of None None]
    by (simp add: r)
qed



end
